theory Spec2Isabelle
  imports Main "HOL-Library.Word"
begin

section \<open>Value model (value/value.go)\<close>

text \<open>
  A \<open>Value\<close> is the Go struct with one pointer per variant, of which "exactly one of the
  below must be set"; the tagged union has one constructor per pointer.  \<open>Int\<close> is
  \<open>int64\<close>; \<open>Float\<close> is \<open>float64\<close>, carried as its 64-bit pattern (no arithmetic is ever
  done on it here).  A \<open>Field\<close> is the pair of \<open>Name\<close> and \<open>Value\<close>.
\<close>

datatype Value =
    FloatValue "64 word"
  | IntValue "64 word"
  | StringValue string
  | BooleanValue bool
  | ListValue "Value list"
  | MapValue "(string \<times> Value) list"
  | Null

type_synonym Field = "string \<times> Value"

text \<open>
  \<open>Map.Get\<close>: the index is built by one pass over \<open>Items\<close>, every field overwriting
  the entry of its name, and then read at \<open>key\<close>.  The index is a cache of \<open>Items\<close>; it is
  rebuilt from \<open>Items\<close> here, which is what \<open>Get\<close> returns as long as \<open>Items\<close> is only changed
  through \<open>Set\<close>.
\<close>

definition buildIndex :: "Field list \<Rightarrow> (string \<rightharpoonup> Field)" where
  "buildIndex items = foldl (\<lambda>index f. index(fst f \<mapsto> f)) Map.empty items"

definition Get :: "Field list \<Rightarrow> string \<Rightarrow> Field option" where
  "Get items key = buildIndex items key"

text \<open>\<open>fmt.Sprintf("%v", n)\<close> on an integer: the decimal numeral.\<close>

fun showNat :: "nat \<Rightarrow> string" where
  "showNat n = (if n < 10 then [''0123456789'' ! n]
                else showNat (n div 10) @ [''0123456789'' ! (n mod 10)])"

definition showInt :: "int \<Rightarrow> string" where
  "showInt i = (if i < 0 then CHR ''-'' # showNat (nat (- i)) else showNat (nat i))"

section \<open>Path elements (fieldpath)\<close>

text \<open>
  \<open>fieldpath.PathElement\<close> is a struct of four optional members; the zero struct
  \<open>PathElement{}\<close> has none of them set.  A nil \<open>Key\<close> slice is the empty list.
\<close>

record PathElement =
  FieldName :: "string option"
  Key :: "Field list"
  Value :: "Value option"
  Index :: "int option"

type_synonym Path = "PathElement list"

definition PathElement_zero :: PathElement where
  "PathElement_zero = \<lparr>FieldName = None, Key = [], Value = None, Index = None\<rparr>"

section \<open>Schema model\<close>

text \<open>
  Modelled from the spec: the declarations of package \<open>schema\<close> (\<open>Schema\<close>, \<open>TypeDef\<close>,
  \<open>TypeRef\<close>, \<open>Atom\<close>, \<open>Scalar\<close>, \<open>Struct\<close>, \<open>List\<close>, \<open>Map\<close>, \<open>ElementRelationship\<close>) are not
  among the sources; only their uses are.  A \<open>TypeRef\<close> is a \<open>NamedType\<close> or an inlined
  \<open>Atom\<close>; an \<open>Atom\<close> has one optional member per variant, read by the walkers in a fixed
  order; the relationship of elements is one of Associative and Atomic.  The validating
  walker reads \<open>Struct.Fields\<close> and \<open>Map.ElementType\<close>; the removing walker reads
  \<open>Map.Fields\<close>, \<open>Map.ElementType\<close> and \<open>Map.ElementRelationship\<close>.
\<close>

datatype Scalar = Numeric | String | Boolean

datatype ElementRelationship = Associative | Atomic

datatype TypeRef = TypeRef (NamedType: "string option") (Inlined: Atom)
and Atom = Atom (Atom_Scalar: "Scalar option") (Atom_Struct: "Struct option")
                (Atom_List: "List option") (Atom_Map: "Map option")
                (Atom_Untyped: "unit option")
and Struct = Struct (Struct_Fields: "StructField list")
and StructField = StructField (StructField_Name: string) (StructField_Type: TypeRef)
and List = List (List_ElementType: TypeRef)
                (List_ElementRelationship: ElementRelationship)
                (List_Keys: "string list")
and Map = Map (Map_Fields: "StructField list") (Map_ElementType: TypeRef)
              (Map_ElementRelationship: ElementRelationship)

record TypeDef =
  TypeDef_Name :: string
  TypeDef_Atom :: Atom

record Schema =
  Types :: "TypeDef list"

text \<open>
  Modelled from the spec: \<open>Schema.Resolve\<close> is not among the sources.  "Inline atoms
  resolve to themselves; named types look up the catalog by exact name match";
  resolution fails if the name is absent.
\<close>

definition Resolve :: "Schema \<Rightarrow> TypeRef \<Rightarrow> Atom option" where
  "Resolve s tr =
     (case NamedType tr of
        Some name \<Rightarrow> map_option TypeDef_Atom (find (\<lambda>t. TypeDef_Name t = name) (Types s))
      | None \<Rightarrow> Some (Inlined tr))"

section \<open>Path element derivation (typed/validate.go)\<close>

text \<open>
  The derivation functions return the Go pair \<open>(pe, err)\<close>; \<open>err\<close> is \<open>None\<close> for nil.
  On an error the pair still carries the path element built so far.
\<close>

fun keyedLoop :: "Field list \<Rightarrow> PathElement \<Rightarrow> string list \<Rightarrow> PathElement \<times> string option" where
  "keyedLoop m pe [] = (pe, None)"
| "keyedLoop m pe (fieldName # rest) =
     (case Get m fieldName of
        Some field \<Rightarrow> keyedLoop m (pe\<lparr>Key := Key pe @ [(fieldName, snd field)]\<rparr>) rest
      | None \<Rightarrow>
          (pe, Some (''associative list with keys has an element that omits key field ''
                     @ fieldName)))"

definition keyedAssociativeListItemToPathElement ::
    "List \<Rightarrow> int \<Rightarrow> Value \<Rightarrow> PathElement \<times> string option" where
  "keyedAssociativeListItemToPathElement list index child =
     (let pe = PathElement_zero in
      case child of
        Null \<Rightarrow> (pe, Some ''associative list with keys may not have a null element'')
      | MapValue m \<Rightarrow> keyedLoop m pe (List_Keys list)
      | _ \<Rightarrow> (pe, Some ''associative list with keys may not have non-map elements''))"

definition setItemToPathElement :: "List \<Rightarrow> int \<Rightarrow> Value \<Rightarrow> PathElement \<times> string option" where
  "setItemToPathElement list index child =
     (let pe = PathElement_zero in
      case child of
        MapValue m \<Rightarrow>
          (pe, Some ''associative list without keys has an element that's a map type'')
      | ListValue l \<Rightarrow>
          (pe, Some ''not supported: associative list with lists as elements'')
      | Null \<Rightarrow>
          (pe, Some ''associative list without keys has an element that's an explicit null'')
      | _ \<Rightarrow> (pe\<lparr>Value := Some child\<rparr>, None))"

definition listItemToPathElement :: "List \<Rightarrow> int \<Rightarrow> Value \<Rightarrow> PathElement \<times> string option" where
  "listItemToPathElement list index child =
     (if List_ElementRelationship list = Associative then
        if length (List_Keys list) > 0
        then keyedAssociativeListItemToPathElement list index child
        else setItemToPathElement list index child
      else (PathElement_zero\<lparr>Index := Some index\<rparr>, None))"

section \<open>Schema-less derivation (fieldpath)\<close>

definition AssociativeListCandidateFieldNames :: "string list" where
  "AssociativeListCandidateFieldNames = [''key'', ''id'', ''name'']"

fun guessLoop :: "Field list \<Rightarrow> Field list \<Rightarrow> string list \<Rightarrow> Field list" where
  "guessLoop m keys [] = keys"
| "guessLoop m keys (name # rest) =
     (case Get m name of
        None \<Rightarrow> guessLoop m keys rest
      | Some f \<Rightarrow>
          (case snd f of
             Null \<Rightarrow> guessLoop m keys rest
           | MapValue _ \<Rightarrow> guessLoop m keys rest
           | ListValue _ \<Rightarrow> guessLoop m keys rest
           | _ \<Rightarrow> guessLoop m (keys @ [f]) rest))"

definition GuessBestListPathElement :: "int \<Rightarrow> Value \<Rightarrow> PathElement" where
  "GuessBestListPathElement index item =
     (case item of
        MapValue m \<Rightarrow>
          (let keys = guessLoop m [] AssociativeListCandidateFieldNames in
           if length keys > 0 then PathElement_zero\<lparr>Key := keys\<rparr>
           else PathElement_zero\<lparr>Index := Some index\<rparr>)
      | _ \<Rightarrow> PathElement_zero\<lparr>Index := Some index\<rparr>)"

text \<open>The scalar variants of a value.\<close>

fun isScalar :: "Value \<Rightarrow> bool" where
  "isScalar (FloatValue _) = True"
| "isScalar (IntValue _) = True"
| "isScalar (StringValue _) = True"
| "isScalar (BooleanValue _) = True"
| "isScalar _ = False"

section \<open>Field-path string tables (fieldpath/strings/table.go)\<close>

text \<open>
  A Go call returns its value, returns an error, or panics (an index out of range is a
  run-time panic).  The texts \<open>v0\<close> and \<open>v1\<close> of the two versions are not among the
  sources; \<open>init\<close> is given the table of each, already split into lines.
\<close>

datatype 'a outcome = Ok 'a | Err string | Panic

definition init_stringTables :: "string list list \<Rightarrow> string list list" where
  "init_stringTables versions = foldl (\<lambda>tables s. tables @ [s]) [] versions"

definition reverseOf :: "string list \<Rightarrow> (string \<rightharpoonup> int)" where
  "reverseOf s = foldl (\<lambda>m i. m(s ! i \<mapsto> int i)) Map.empty [0..<length s]"

definition init_reverseTables :: "string list list \<Rightarrow> (string \<rightharpoonup> int) list" where
  "init_reverseTables versions = foldl (\<lambda>tables s. tables @ [reverseOf s]) [] versions"

definition DefaultVersion :: int where
  "DefaultVersion = 1"

definition GetTable :: "string list list \<Rightarrow> int \<Rightarrow> string list outcome" where
  "GetTable stringTables i =
     (if i < 0 \<or> i > int (length stringTables)
      then Err (''unable to lookup string table version '' @ showInt i)
      else if nat i < length stringTables then Ok (stringTables ! nat i)
      else Panic)"

definition GetReverseTable :: "(string \<rightharpoonup> int) list \<Rightarrow> int \<Rightarrow> (string \<rightharpoonup> int) outcome" where
  "GetReverseTable reverseTables i =
     (if i < 0 \<or> i > int (length reverseTables)
      then Err (''unable to lookup reverse string table version '' @ showInt i)
      else if nat i < length reverseTables then Ok (reverseTables ! nat i)
      else Panic)"


section \<open>Validating walker (typed/validate.go)\<close>

text \<open>
  What the walker takes from outside this repository's sources: \<open>fmt\<close>'s rendering of a
  \<open>float64\<close> under \<open>%v\<close> and of a string under \<open>%q\<close>, and \<open>PathElement.String\<close> of package
  \<open>fieldpath\<close>.  They are parameters of the model.
\<close>

record extern =
  formatFloat :: "64 word \<Rightarrow> string"
  quote :: "string \<Rightarrow> string"
  PathElement_String :: "PathElement \<Rightarrow> string"

text \<open>\<open>strings.Join\<close>.\<close>

fun Join :: "string list \<Rightarrow> string \<Rightarrow> string" where
  "Join [] sep = []"
| "Join [s] sep = s"
| "Join (s # t # rest) sep = s @ sep @ Join (t # rest) sep"

lemma size_snd_member: "f \<in> set items \<Longrightarrow> size (snd f) < Suc (size_list (size_prod (\<lambda>_. 0) size) items)"
  by (induction items) auto

function HumanReadable :: "extern \<Rightarrow> Value \<Rightarrow> string" where
  "HumanReadable x (FloatValue f) = formatFloat x f"
| "HumanReadable x (IntValue i) = showInt (sint i)"
| "HumanReadable x (StringValue s) = quote x s"
| "HumanReadable x (BooleanValue b) = (if b then ''true'' else ''false'')"
| "HumanReadable x (ListValue items) =
     ''['' @ Join (map (\<lambda>item. HumanReadable x item) items) '','' @ '']''"
| "HumanReadable x (MapValue items) =
     ''{'' @ Join (map (\<lambda>i. fst i @ ''='' @ HumanReadable x (snd i)) items) '';'' @ ''}''"
| "HumanReadable x Null = ''null''"
  by pat_completeness auto
termination
  by (relation "measure (\<lambda>p. size (snd p))")
     (auto simp: less_Suc_eq_le size_list_estimation' dest: size_snd_member)

record ValidationError =
  Path :: Path
  ErrorMessage :: string

type_synonym ValidationErrors = "ValidationError list"

record validation =
  validation_path :: Path
  validation_value :: Value
  validation_schema :: Schema
  validation_typeRef :: TypeRef

definition error :: "validation \<Rightarrow> string \<Rightarrow> ValidationError" where
  "error v message = \<lparr>Path = [] @ validation_path v, ErrorMessage = message\<rparr>"

definition doScalar :: "extern \<Rightarrow> validation \<Rightarrow> Scalar \<Rightarrow> Value \<Rightarrow> ValidationErrors" where
  "doScalar x v t val =
     (case t of
        Numeric \<Rightarrow>
          (case val of
             FloatValue _ \<Rightarrow> []
           | IntValue _ \<Rightarrow> []
           | _ \<Rightarrow> [error v (''expected numeric (int or float), got '' @ HumanReadable x val)])
      | String \<Rightarrow>
          (case val of
             StringValue _ \<Rightarrow> []
           | _ \<Rightarrow> [error v (''expected string, got '' @ HumanReadable x val)])
      | Boolean \<Rightarrow>
          (case val of
             BooleanValue _ \<Rightarrow> []
           | _ \<Rightarrow> [error v (''expected boolean, got '' @ HumanReadable x val)]))"


text \<open>
  The walker: \<open>validate\<close> resolves the type reference and dispatches on the atom, in the
  order of the source's \<open>switch\<close>.  Each \<open>v2 := v; v2.path = append(v.path, pe); ...\<close> is a
  record update; \<open>errs = append(errs, ...)\<close> in a loop is the concatenation of what each
  iteration appends.  \<open>doList_items\<close> is the loop of \<open>doList\<close>, carrying \<open>observedKeys\<close>
  and the index.  (Where \<open>Resolve\<close> fails the reference is a named one, so the inner
  \<open>None\<close> branch of \<open>validate\<close> is never taken.)
\<close>

lemma Get_member_aux:
  "foldl (\<lambda>index f. index(fst f \<mapsto> f)) idx items key = Some f \<Longrightarrow>
   f \<in> set items \<or> idx key = Some f"
proof (induction items arbitrary: idx)
  case Nil
  then show ?case by simp
next
  case (Cons g items)
  from Cons.IH [of "idx(fst g \<mapsto> g)"] Cons.prems show ?case
    by (auto split: if_splits)
qed

lemma Get_member: "Get items key = Some f \<Longrightarrow> f \<in> set items"
  using Get_member_aux [of Map.empty items key f] by (simp add: Get_def buildIndex_def)

function validate :: "extern \<Rightarrow> validation \<Rightarrow> ValidationErrors"
   and doStruct :: "extern \<Rightarrow> validation \<Rightarrow> Struct \<Rightarrow> Value \<Rightarrow> ValidationErrors"
   and doList :: "extern \<Rightarrow> validation \<Rightarrow> List \<Rightarrow> Value \<Rightarrow> ValidationErrors"
   and doList_items ::
     "extern \<Rightarrow> validation \<Rightarrow> List \<Rightarrow> string set \<Rightarrow> int \<Rightarrow> Value list \<Rightarrow> ValidationErrors"
   and doMap :: "extern \<Rightarrow> validation \<Rightarrow> Map \<Rightarrow> Value \<Rightarrow> ValidationErrors"
where
  "validate x v =
     (case Resolve (validation_schema v) (validation_typeRef v) of
        None \<Rightarrow>
          (case NamedType (validation_typeRef v) of
             Some name \<Rightarrow> [error v (''no type found matching: '' @ name)]
           | None \<Rightarrow> [])
      | Some a \<Rightarrow>
          (case Atom_Scalar a of
             Some t \<Rightarrow> doScalar x v t (validation_value v)
           | None \<Rightarrow>
          (case Atom_Struct a of
             Some t \<Rightarrow> doStruct x v t (validation_value v)
           | None \<Rightarrow>
          (case Atom_List a of
             Some t \<Rightarrow> doList x v t (validation_value v)
           | None \<Rightarrow>
          (case Atom_Map a of
             Some t \<Rightarrow> doMap x v t (validation_value v)
           | None \<Rightarrow>
          (case Atom_Untyped a of
             Some t \<Rightarrow> []
           | None \<Rightarrow> [error v ''invalid atom'']))))))"
| "doStruct x v t val =
     (case val of
        Null \<Rightarrow> []
      | MapValue m \<Rightarrow>
          concat (map (\<lambda>f.
              case Get m (StructField_Name f) of
                None \<Rightarrow> []
              | Some child \<Rightarrow>
                  validate x (v\<lparr>validation_path :=
                                   validation_path v
                                   @ [PathElement_zero\<lparr>FieldName := Some (StructField_Name f)\<rparr>],
                                validation_value := snd child,
                                validation_typeRef := StructField_Type f\<rparr>))
            (Struct_Fields t))
          @ concat (map (\<lambda>f.
              if fst f \<in> set (map StructField_Name (Struct_Fields t)) then []
              else [error v (''field '' @ fst f @ '' is not mentioned in the schema'')])
            m)
      | _ \<Rightarrow> [error v (''expected struct, got '' @ HumanReadable x val)])"
| "doList x v t val =
     (case val of
        Null \<Rightarrow> []
      | ListValue items \<Rightarrow> doList_items x v t {} 0 items
      | _ \<Rightarrow> [error v ''expected list''])"
| "doList_items x v t observedKeys i [] = []"
| "doList_items x v t observedKeys i (child # rest) =
     (case listItemToPathElement t i child of
        (pe, Some err) \<Rightarrow>
          error v (''element '' @ showInt i @ '': '' @ err)
          # doList_items x v t observedKeys (i + 1) rest
      | (pe, None) \<Rightarrow>
          (let keyStr = PathElement_String x pe in
           (if keyStr \<in> observedKeys
            then [error v (''duplicate entries for key '' @ keyStr)] else [])
           @ validate x (v\<lparr>validation_path := validation_path v @ [pe],
                           validation_value := child,
                           validation_typeRef := List_ElementType t\<rparr>)
           @ doList_items x v t (insert keyStr observedKeys) (i + 1) rest))"
| "doMap x v t val =
     (case val of
        Null \<Rightarrow> []
      | MapValue items \<Rightarrow>
          concat (map (\<lambda>item.
              validate x (v\<lparr>validation_path :=
                               validation_path v
                               @ [PathElement_zero\<lparr>FieldName := Some (fst item)\<rparr>],
                            validation_value := snd item,
                            validation_typeRef := Map_ElementType t\<rparr>))
            items)
      | _ \<Rightarrow> [error v (''expected list, found '' @ HumanReadable x val)])"
  by pat_completeness auto
termination
  apply (relation "measure (\<lambda>a. case a of
      Inl (Inl (x, v)) \<Rightarrow> 2 * size (validation_value v) + 1
    | Inl (Inr (x, v, t, val)) \<Rightarrow> 2 * size val
    | Inr (Inl (x, v, t, val)) \<Rightarrow> 2 * size val
    | Inr (Inr (Inl (x, v, t, obs, i, items))) \<Rightarrow> 2 * size_list size items
    | Inr (Inr (Inr (x, v, t, val))) \<Rightarrow> 2 * size val)")
  apply (auto dest!: Get_member size_snd_member)
  done


section \<open>Removing walker (package typed)\<close>

text \<open>
  Modelled from the spec: \<open>fieldpath.Set\<close> and \<open>fieldpath.MakePath\<close> are not among the
  sources.  A Path-set is a finite collection of paths, here the list of its members.
  \<open>Has\<close> asks whether "the exact element path is in the removal set"; \<open>WithPrefix pe\<close> is
  "the prefix-narrowed subset" of the "entries whose path is prefixed by this element's
  path (a strict descendant)", each without that first element; \<open>Empty\<close> says that a set
  has no member.  \<open>MakePath pe\<close> is the path of the single element \<open>pe\<close> (the walker
  ignores its error result).
\<close>

type_synonym PathSet = "Path list"

definition Has :: "PathSet \<Rightarrow> Path \<Rightarrow> bool" where
  "Has s p = (p \<in> set s)"

definition WithPrefix :: "PathSet \<Rightarrow> PathElement \<Rightarrow> PathSet" where
  "WithPrefix s pe =
     map tl (filter (\<lambda>p. case p of [] \<Rightarrow> False | e # rest \<Rightarrow> e = pe \<and> rest \<noteq> []) s)"

definition Empty :: "PathSet \<Rightarrow> bool" where
  "Empty s = (s = [])"

definition MakePath :: "PathElement \<Rightarrow> Path" where
  "MakePath pe = [pe]"

text \<open>
  Modelled from the spec: \<open>value.ValueList\<close> and \<open>value.ValueMap\<close> are not among the
  sources.  They read a value as a list, respectively as a map, and give nil (\<open>None\<close>)
  for a value of another shape.
\<close>

definition ValueList :: "Value \<Rightarrow> Value list option" where
  "ValueList v = (case v of ListValue l \<Rightarrow> Some l | _ \<Rightarrow> None)"

definition ValueMap :: "Value \<Rightarrow> Field list option" where
  "ValueMap v = (case v of MapValue m \<Rightarrow> Some m | _ \<Rightarrow> None)"

record removingWalker =
  walker_value :: Value
  walker_schema :: Schema
  walker_toRemove :: PathSet

text \<open>\<open>fieldTypes\<close> of \<open>doMap\<close>: the declared type of each field name, a later declaration
  of a name overwriting an earlier one.\<close>

definition fieldTypes :: "Map \<Rightarrow> (string \<rightharpoonup> TypeRef)" where
  "fieldTypes t =
     foldl (\<lambda>m structField. m(StructField_Name structField \<mapsto> StructField_Type structField))
       Map.empty (Map_Fields t)"

lemma ValueList_Some: "ValueList v = Some l \<Longrightarrow> v = ListValue l"
  by (cases v) (simp_all add: ValueList_def)

lemma ValueMap_Some: "ValueMap v = Some m \<Longrightarrow> v = MapValue m"
  by (cases v) (simp_all add: ValueMap_def)

text \<open>
  Modelled from the spec: \<open>resolveSchema\<close> is not among the sources.  It "mirrors the
  validating walker's dispatch but only for List and Map atoms": the reference is
  resolved and the handler of the walker for the atom is called, the members of the atom
  being read in the order of the validating walker; there is no handler for a struct or
  an untyped atom, and a reference that does not resolve is a "silently inert no-op".
  The handlers are the methods of the walker it is given; each is a function from the
  atom to the value the method leaves in \<open>*w.value\<close>.
\<close>

definition resolveSchema ::
    "Schema \<Rightarrow> TypeRef \<Rightarrow> Value \<Rightarrow> (Scalar \<Rightarrow> Value) \<Rightarrow> (List \<Rightarrow> Value) \<Rightarrow> (Map \<Rightarrow> Value)
     \<Rightarrow> Value" where
  "resolveSchema schema typeRef val onScalar onList onMap =
     (case Resolve schema typeRef of
        None \<Rightarrow> val
      | Some a \<Rightarrow>
          (case Atom_Scalar a of
             Some t \<Rightarrow> onScalar t
           | None \<Rightarrow>
          (case Atom_Struct a of
             Some t \<Rightarrow> val
           | None \<Rightarrow>
          (case Atom_List a of
             Some t \<Rightarrow> onList t
           | None \<Rightarrow>
          (case Atom_Map a of
             Some t \<Rightarrow> onMap t
           | None \<Rightarrow> val)))))"

lemma resolveSchema_cong [fundef_cong]:
  "schema = schema' \<Longrightarrow> typeRef = typeRef' \<Longrightarrow> val = val' \<Longrightarrow>
   (\<And>t. onScalar t = onScalar' t) \<Longrightarrow> (\<And>t. onList t = onList' t) \<Longrightarrow>
   (\<And>t. onMap t = onMap' t) \<Longrightarrow>
   resolveSchema schema typeRef val onScalar onList onMap =
   resolveSchema schema' typeRef' val' onScalar' onList' onMap'"
  by (simp add: resolveSchema_def split: option.splits)

text \<open>
  The walker mutates \<open>*w.value\<close> in place; each function of the model returns the value
  stored there when the Go function returns.  \<open>removingWalker_doList_items\<close> and
  \<open>removingWalker_doMap_items\<close> are the loops, returning what they append to \<open>newItems\<close>
  and put into \<open>newMap\<close>; \<open>removingWalker_doMap_keep\<close> is the part of the map loop's body
  after the \<open>continue\<close>.  A Go map has no order and no duplicate key; its entries are
  visited in the stored order here, each one being decided on its own.
\<close>

definition removingWalker_doScalar :: "removingWalker \<Rightarrow> Scalar \<Rightarrow> Value" where
  "removingWalker_doScalar w t = walker_value w"

function removeItemsWithSchema :: "Value \<Rightarrow> PathSet \<Rightarrow> Schema \<Rightarrow> TypeRef \<Rightarrow> Value"
   and removingWalker_doList :: "removingWalker \<Rightarrow> List \<Rightarrow> Value"
   and removingWalker_doList_items :: "removingWalker \<Rightarrow> List \<Rightarrow> int \<Rightarrow> Value list \<Rightarrow> Value list"
   and removingWalker_doMap :: "removingWalker \<Rightarrow> Map \<Rightarrow> Value"
   and removingWalker_doMap_items :: "removingWalker \<Rightarrow> Map \<Rightarrow> Field list \<Rightarrow> Field list"
   and removingWalker_doMap_keep ::
     "removingWalker \<Rightarrow> TypeRef \<Rightarrow> PathElement \<Rightarrow> string \<Rightarrow> Value \<Rightarrow> Field"
where
  "removeItemsWithSchema val toRemove schema typeRef =
     (let w = \<lparr>walker_value = val, walker_schema = schema, walker_toRemove = toRemove\<rparr> in
      resolveSchema schema typeRef val
        (\<lambda>t. removingWalker_doScalar w t)
        (\<lambda>t. removingWalker_doList w t)
        (\<lambda>t. removingWalker_doMap w t))"
| "removingWalker_doList w t =
     (case ValueList (walker_value w) of
        None \<Rightarrow> walker_value w
      | Some l \<Rightarrow>
          if length l = 0 \<or> List_ElementRelationship t = Atomic then walker_value w
          else (let newItems = removingWalker_doList_items w t 0 l in
                if length newItems > 0 then ListValue newItems else Null))"
| "removingWalker_doList_items w t i [] = []"
| "removingWalker_doList_items w t i (item # rest) =
     (let pe = fst (listItemToPathElement t i item);
          path = MakePath pe in
      if Has (walker_toRemove w) path then removingWalker_doList_items w t (i + 1) rest
      else (let subset = WithPrefix (walker_toRemove w) pe in
            (if \<not> Empty subset
             then removeItemsWithSchema item subset (walker_schema w) (List_ElementType t)
             else item)
            # removingWalker_doList_items w t (i + 1) rest))"
| "removingWalker_doMap w t =
     (case ValueMap (walker_value w) of
        None \<Rightarrow> walker_value w
      | Some m \<Rightarrow>
          if length m = 0 \<or> Map_ElementRelationship t = Atomic then walker_value w
          else (let newMap = removingWalker_doMap_items w t m in
                if length newMap > 0 then MapValue newMap else Null))"
| "removingWalker_doMap_items w t [] = []"
| "removingWalker_doMap_items w t (entry # rest) =
     (let pe = PathElement_zero\<lparr>FieldName := Some (fst entry)\<rparr>;
          path = MakePath pe in
      case fieldTypes t (fst entry) of
        Some ft \<Rightarrow>
          removingWalker_doMap_keep w ft pe (fst entry) (snd entry)
          # removingWalker_doMap_items w t rest
      | None \<Rightarrow>
          if Has (walker_toRemove w) path then removingWalker_doMap_items w t rest
          else removingWalker_doMap_keep w (Map_ElementType t) pe (fst entry) (snd entry)
               # removingWalker_doMap_items w t rest)"
| "removingWalker_doMap_keep w fieldType pe key val =
     (let subset = WithPrefix (walker_toRemove w) pe in
      (key, if \<not> Empty subset
            then removeItemsWithSchema val subset (walker_schema w) fieldType
            else val))"
  by pat_completeness auto
termination
  apply (relation "measure (\<lambda>a. case a of
      Inl (Inl (val, toRemove, schema, typeRef)) \<Rightarrow> 4 * size val + 3
    | Inl (Inr (Inl (w, t))) \<Rightarrow> 4 * size (walker_value w) + 1
    | Inl (Inr (Inr (w, t, i, items))) \<Rightarrow> 4 * size_list size items
    | Inr (Inl (w, t)) \<Rightarrow> 4 * size (walker_value w) + 1
    | Inr (Inr (Inl (w, t, items))) \<Rightarrow> 4 * size_list (size_prod (\<lambda>_. 0) size) items
    | Inr (Inr (Inr (w, fieldType, pe, key, val))) \<Rightarrow> 4 * size val + 4)")
  apply (auto dest!: ValueList_Some ValueMap_Some)
  done


text \<open>The equations with a variable for every argument are unfolded by hand.\<close>

declare validate.simps [simp del] doStruct.simps [simp del] doList.simps [simp del]
  doMap.simps [simp del]
declare removeItemsWithSchema.simps [simp del]
  removingWalker_doList.simps [simp del] removingWalker_doMap.simps [simp del]
  removingWalker_doMap_keep.simps [simp del]

section \<open>Removal sets that keep to the keys of the schema\<close>





section \<open>Properties\<close>

subsection \<open>Map lookup\<close>



text \<open>
  A loop that overwrites the entry of each name leaves, for a name, what \<open>map_of\<close> finds in
  the reversed list: the last item of that name.  For a map whose names are unique this
  is the item of that name.
\<close>

lemma foldl_update_map_of:
  "foldl (\<lambda>index f. index(g f \<mapsto> h f)) idx items k =
     (case map_of (rev (map (\<lambda>f. (g f, h f)) items)) k of None \<Rightarrow> idx k | Some v \<Rightarrow> Some v)"
proof (induction items arbitrary: idx)
  case Nil
  show ?case by simp
next
  case (Cons f items)
  show ?case
    unfolding foldl_Cons Cons.IH
    by (simp add: map_add_def split: option.splits)
qed

lemma Get_as_map_of: "Get items k = map_option (Pair k) (map_of (rev items) k)"
proof -
  have "Get items k = map_of (rev (map (\<lambda>f. (fst f, f)) items)) k"
    using foldl_update_map_of [of fst "\<lambda>f. f" Map.empty items k]
    by (simp add: Get_def buildIndex_def split: option.splits)
  also have "\<dots> = map_option (Pair k) (map_of (rev items) k)"
  proof -
    have "map_of (map (\<lambda>f. (fst f, f)) xs) k = map_option (Pair k) (map_of xs k)"
      for xs :: "Field list"
      by (induction xs) auto
    from this [of "rev items"] show ?thesis by (simp add: rev_map)
  qed
  finally show ?thesis .
qed


subsection \<open>Keyed path elements follow the schema's key order\<close>

lemma keyedLoop_all_present:
  "\<forall>k\<in>set keys. Get m k \<noteq> None \<Longrightarrow>
   keyedLoop m pe keys = (pe\<lparr>Key := Key pe @ map (\<lambda>k. (k, snd (the (Get m k)))) keys\<rparr>, None)"
  by (induction keys arbitrary: pe) auto

text \<open>
  Claim C1.  For an associative list with a non-empty \<open>Keys\<close> list and an element that is
  a map holding every declared key field, the derived path element is a \<open>Key\<close> (no other
  member is set, and there is no error) whose pairs are the key names, in the order of
  \<open>Keys\<close>, each with the value the element has for it.  Hence a second map element with
  the same values for the key fields derives the identical path element, whatever the
  order of its own fields and whatever its position.
\<close>

theorem C1_key_in_schema_order:
  assumes "List_ElementRelationship list = Associative"
      and "List_Keys list \<noteq> []"
      and "\<forall>k\<in>set (List_Keys list). Get m k \<noteq> None"
      and "\<forall>k\<in>set (List_Keys list).
             Get m' k \<noteq> None \<and> snd (the (Get m' k)) = snd (the (Get m k))"
  shows "listItemToPathElement list i (MapValue m) =
           (\<lparr>FieldName = None,
             Key = map (\<lambda>k. (k, snd (the (Get m k)))) (List_Keys list),
             Value = None, Index = None\<rparr>, None)
         \<and> keyedAssociativeListItemToPathElement list i (MapValue m) =
             listItemToPathElement list i (MapValue m)
         \<and> listItemToPathElement list j (MapValue m') =
             listItemToPathElement list i (MapValue m)"
proof -
  have m: "keyedLoop m PathElement_zero (List_Keys list) =
           (PathElement_zero\<lparr>Key := map (\<lambda>k. (k, snd (the (Get m k)))) (List_Keys list)\<rparr>, None)"
    using keyedLoop_all_present [OF assms(3), of PathElement_zero]
    by (simp add: PathElement_zero_def)
  have "\<forall>k\<in>set (List_Keys list). Get m' k \<noteq> None" using assms(4) by blast
  then have "keyedLoop m' PathElement_zero (List_Keys list) =
           (PathElement_zero\<lparr>Key := map (\<lambda>k. (k, snd (the (Get m' k)))) (List_Keys list)\<rparr>, None)"
    using keyedLoop_all_present [of "List_Keys list" m' PathElement_zero]
    by (simp add: PathElement_zero_def)
  moreover have "map (\<lambda>k. (k, snd (the (Get m' k)))) (List_Keys list) =
                 map (\<lambda>k. (k, snd (the (Get m k)))) (List_Keys list)"
    using assms(4) by simp
  ultimately have m': "keyedLoop m' PathElement_zero (List_Keys list) =
                       keyedLoop m PathElement_zero (List_Keys list)"
    using m by simp
  show ?thesis
    using assms(1,2) m m'
    by (simp add: listItemToPathElement_def keyedAssociativeListItemToPathElement_def
                  PathElement_zero_def)
qed

theorem C1_key_in_schema_order_witness:
  "List_ElementRelationship (List (TypeRef None (Atom None None None None (Some ()))) Associative [''id'', ''ns''])
     = Associative
   \<and> List_Keys (List (TypeRef None (Atom None None None None (Some ()))) Associative [''id'', ''ns'']) \<noteq> []
   \<and> listItemToPathElement
        (List (TypeRef None (Atom None None None None (Some ()))) Associative [''id'', ''ns'']) 0
        (MapValue [(''ns'', StringValue ''n''), (''id'', StringValue ''a''), (''extra'', IntValue 1)])
      = (\<lparr>FieldName = None, Key = [(''id'', StringValue ''a''), (''ns'', StringValue ''n'')],
          Value = None, Index = None\<rparr>, None)
   \<and> listItemToPathElement
        (List (TypeRef None (Atom None None None None (Some ()))) Associative [''id'', ''ns'']) 1
        (MapValue [(''extra'', IntValue 2), (''id'', StringValue ''a''), (''ns'', StringValue ''n'')])
      = listItemToPathElement
        (List (TypeRef None (Atom None None None None (Some ()))) Associative [''id'', ''ns'']) 0
        (MapValue [(''ns'', StringValue ''n''), (''id'', StringValue ''a''), (''extra'', IntValue 1)])"
  using C1_key_in_schema_order
    [of "List (TypeRef None (Atom None None None None (Some ()))) Associative [''id'', ''ns'']"
        "[(''ns'', StringValue ''n''), (''id'', StringValue ''a''), (''extra'', IntValue 1)]"
        "[(''extra'', IntValue 2), (''id'', StringValue ''a''), (''ns'', StringValue ''n'')]"
        0 1]
  by (simp add: Get_def buildIndex_def)

subsection \<open>Schema-less derivation\<close>

lemma guessLoop_eq:
  "guessLoop m keys names =
   keys @ concat (map (\<lambda>n. case map_of (rev m) n of
                               None \<Rightarrow> []
                             | Some v \<Rightarrow> if isScalar v then [(n, v)] else []) names)"
proof (induction names arbitrary: keys)
  case Nil
  then show ?case by simp
next
  case (Cons n names)
  show ?case
  proof (cases "map_of (rev m) n")
    case None
    then show ?thesis using Cons.IH by (simp add: Get_as_map_of)
  next
    case (Some v)
    then show ?thesis
      using Cons.IH by (cases v) (simp_all add: Get_as_map_of)
  qed
qed

text \<open>
  Claim C8.  \<open>GuessBestListPathElement\<close> gives \<open>Index i\<close> for every item that is not a
  map.  For a map it goes through \<open>key\<close>, \<open>id\<close>, \<open>name\<close> in that order and collects each
  one for which the map has an entry with a scalar value (an entry whose value is Null,
  a map or a list is passed over); the result is the \<open>Key\<close> of all the collected fields
  when there is at least one, and \<open>Index i\<close> otherwise.  The entry of a name is stated
  by \<open>map_of\<close> on the items, not by the lookup of the model.  The examples after it are
  the map with \<open>name\<close> alone (a \<open>Key\<close>, at any index), a map with all three candidates
  stored in another order, maps whose candidates are Null or containers, and items
  that are not maps.
\<close>

theorem C8_guess_best_list_path_element:
  "GuessBestListPathElement i item =
     (case item of
        MapValue m \<Rightarrow>
          (let ks = concat (map (\<lambda>n. case map_of (rev m) n of
                                         None \<Rightarrow> []
                                       | Some v \<Rightarrow> if isScalar v then [(n, v)] else [])
                           [''key'', ''id'', ''name''])
           in if ks = [] then \<lparr>FieldName = None, Key = [], Value = None, Index = Some i\<rparr>
              else \<lparr>FieldName = None, Key = ks, Value = None, Index = None\<rparr>)
      | _ \<Rightarrow> \<lparr>FieldName = None, Key = [], Value = None, Index = Some i\<rparr>)"
  by (cases item)
     (simp_all add: GuessBestListPathElement_def guessLoop_eq
        AssociativeListCandidateFieldNames_def PathElement_zero_def Let_def)

theorem C8_guess_best_list_path_element_witness:
  "GuessBestListPathElement 0 (MapValue [(''name'', StringValue ''x'')])
     = \<lparr>FieldName = None, Key = [(''name'', StringValue ''x'')], Value = None, Index = None\<rparr>
   \<and> GuessBestListPathElement 1 (MapValue [(''name'', StringValue ''x'')])
     = \<lparr>FieldName = None, Key = [(''name'', StringValue ''x'')], Value = None, Index = None\<rparr>
   \<and> GuessBestListPathElement 2
       (MapValue [(''name'', StringValue ''n''), (''other'', IntValue 7),
                  (''id'', IntValue 3), (''key'', BooleanValue True)])
     = \<lparr>FieldName = None,
        Key = [(''key'', BooleanValue True), (''id'', IntValue 3), (''name'', StringValue ''n'')],
        Value = None, Index = None\<rparr>
   \<and> GuessBestListPathElement 3
       (MapValue [(''key'', Null), (''id'', ListValue [IntValue 1]),
                  (''name'', FloatValue 5)])
     = \<lparr>FieldName = None, Key = [(''name'', FloatValue 5)], Value = None, Index = None\<rparr>
   \<and> GuessBestListPathElement 4
       (MapValue [(''key'', Null), (''id'', MapValue [(''name'', StringValue ''x'')]),
                  (''other'', StringValue ''y'')])
     = \<lparr>FieldName = None, Key = [], Value = None, Index = Some 4\<rparr>
   \<and> GuessBestListPathElement 5 (StringValue ''name'')
     = \<lparr>FieldName = None, Key = [], Value = None, Index = Some 5\<rparr>
   \<and> GuessBestListPathElement 6 (ListValue [MapValue [(''name'', StringValue ''x'')]])
     = \<lparr>FieldName = None, Key = [], Value = None, Index = Some 6\<rparr>"
  by (simp add: C8_guess_best_list_path_element)

subsection \<open>String tables\<close>

text \<open>
  Claim C7.  The guard of \<open>GetTable\<close> and \<open>GetReverseTable\<close> is \<open>i > len(tables)\<close>, so the
  index equal to the number of versions passes it and the slice is read out of range: with
  the two versions of the source, version 2 panics (version 1 is returned and version 3
  is an error).
\<close>

theorem C7_lookup_at_length_panics:
  "GetTable (init_stringTables [v0, v1]) 2 = Panic
   \<and> GetReverseTable (init_reverseTables [v0, v1]) 2 = Panic
   \<and> GetTable (init_stringTables [v0, v1]) 1 = Ok v1
   \<and> GetTable (init_stringTables [v0, v1]) 3 = Err ''unable to lookup string table version 3''"
  by (simp add: GetTable_def GetReverseTable_def init_stringTables_def init_reverseTables_def showInt_def)


subsection \<open>Duplicate list entries\<close>

text \<open>
  The loop of \<open>doList\<close> over \<open>xs @ ys\<close> is the loop over \<open>xs\<close> followed by the loop over
  \<open>ys\<close>, started with the keys observed so far: these include the rendering of every
  element of \<open>xs\<close> whose path element was derived.
\<close>

lemma doList_items_append:
  "\<exists>obs'. obs \<subseteq> obs'
     \<and> (\<forall>k<length xs. \<forall>pe. listItemToPathElement t (i + int k) (xs ! k) = (pe, None)
            \<longrightarrow> PathElement_String x pe \<in> obs')
     \<and> (\<forall>ys. doList_items x v t obs i (xs @ ys) =
               doList_items x v t obs i xs @ doList_items x v t obs' (i + int (length xs)) ys)"
proof (induction xs arbitrary: obs i)
  case Nil
  show ?case by (rule exI [of _ obs]) simp
next
  case (Cons c xs)
  obtain pe err where d: "listItemToPathElement t i c = (pe, err)"
    by (cases "listItemToPathElement t i c")
  define obs2 where
    "obs2 = (case err of None \<Rightarrow> insert (PathElement_String x pe) obs | Some e \<Rightarrow> obs)"
  from Cons.IH [of obs2 "i + 1"] obtain obs' where
    sub: "obs2 \<subseteq> obs'"
    and seen: "\<And>k pe'. k < length xs \<Longrightarrow>
                 listItemToPathElement t (i + 1 + int k) (xs ! k) = (pe', None) \<Longrightarrow>
                 PathElement_String x pe' \<in> obs'"
    and app: "\<And>ys. doList_items x v t obs2 (i + 1) (xs @ ys) =
                 doList_items x v t obs2 (i + 1) xs
                 @ doList_items x v t obs' (i + 1 + int (length xs)) ys"
    by blast
  have "obs \<subseteq> obs'" using sub by (auto simp: obs2_def split: option.splits)
  moreover have "\<forall>k<length (c # xs). \<forall>pe'.
        listItemToPathElement t (i + int k) ((c # xs) ! k) = (pe', None)
        \<longrightarrow> PathElement_String x pe' \<in> obs'"
  proof (intro allI impI)
    fix k pe'
    assume k: "k < length (c # xs)"
       and e: "listItemToPathElement t (i + int k) ((c # xs) ! k) = (pe', None)"
    show "PathElement_String x pe' \<in> obs'"
    proof (cases k)
      case 0
      with e d have "pe' = pe" "err = None" by simp_all
      then show ?thesis using sub by (auto simp: obs2_def)
    next
      case (Suc k')
      have idx: "i + int k = i + 1 + int k'" using Suc by simp
      have nth: "(c # xs) ! k = xs ! k'" using Suc by simp
      have "k' < length xs" using k Suc by simp
      moreover have "listItemToPathElement t (i + 1 + int k') (xs ! k') = (pe', None)"
        using e unfolding idx nth .
      ultimately show ?thesis by (rule seen)
    qed
  qed
  moreover have "\<forall>ys. doList_items x v t obs i ((c # xs) @ ys) =
        doList_items x v t obs i (c # xs)
        @ doList_items x v t obs' (i + int (length (c # xs))) ys"
  proof
    fix ys
    have idx: "i + int (length (c # xs)) = i + 1 + int (length xs)" by simp
    show "doList_items x v t obs i ((c # xs) @ ys) =
        doList_items x v t obs i (c # xs)
        @ doList_items x v t obs' (i + int (length (c # xs))) ys"
      unfolding idx using d app [of ys] by (cases err) (simp_all add: obs2_def Let_def)
  qed
  ultimately show ?case by blast
qed

text \<open>
  Claim C2.  When the elements at two positions \<open>i < j\<close> of a list value both derive a
  path element and the two have the same string form, validation reports
  "duplicate entries for key" with that string for the later element: the errors of the
  list are those of the elements before position \<open>j\<close>, then this error, then the errors
  found inside element \<open>j\<close>, then those of the elements after it.  The list's schema is
  arbitrary, so this covers keyed associative lists and sets.
\<close>

theorem C2_duplicate_reported_for_later_element:
  assumes "i < j" and "j < length items"
      and "listItemToPathElement t (int i) (items ! i) = (pe_i, None)"
      and "listItemToPathElement t (int j) (items ! j) = (pe_j, None)"
      and "PathElement_String x pe_i = PathElement_String x pe_j"
  shows "\<exists>rest. doList x v t (ListValue items) =
           doList x v t (ListValue (take j items))
           @ error v (''duplicate entries for key '' @ PathElement_String x pe_j)
           # validate x (v\<lparr>validation_path := validation_path v @ [pe_j],
                           validation_value := items ! j,
                           validation_typeRef := List_ElementType t\<rparr>)
           @ rest"
proof -
  from doList_items_append [of "{}" "take j items" t 0 x v] obtain obs' where
    seen: "\<And>k pe. k < length (take j items) \<Longrightarrow>
             listItemToPathElement t (0 + int k) (take j items ! k) = (pe, None) \<Longrightarrow>
             PathElement_String x pe \<in> obs'"
    and app: "\<And>ys. doList_items x v t {} 0 (take j items @ ys) =
               doList_items x v t {} 0 (take j items)
               @ doList_items x v t obs' (0 + int (length (take j items))) ys"
    by blast
  have len: "length (take j items) = j" using assms(2) by simp
  have "PathElement_String x pe_i \<in> obs'"
    using seen [of i pe_i] assms(1,2,3) by simp
  then have dup: "PathElement_String x pe_j \<in> obs'" using assms(5) by simp
  have split: "items = take j items @ items ! j # drop (Suc j) items"
    using assms(2) by (simp add: id_take_nth_drop)
  have "doList_items x v t {} 0 items =
        doList_items x v t {} 0 (take j items)
        @ doList_items x v t obs' (int j) (items ! j # drop (Suc j) items)"
    using app [of "items ! j # drop (Suc j) items"] split len by simp
  then show ?thesis
    using assms(4) dup by (simp add: doList.simps Let_def)
qed

theorem C2_duplicate_reported_for_later_element_witness:
  "(\<exists>rest.
      doList
        \<lparr>formatFloat = (\<lambda>f. ''0''), quote = (\<lambda>s. s),
          PathElement_String =
            (\<lambda>pe. case Value pe of
                    Some u \<Rightarrow> (case u of StringValue s \<Rightarrow> s | _ \<Rightarrow> [])
                  | None \<Rightarrow> concat (map (\<lambda>f. fst f @ ''='' @
                        (case snd f of StringValue s \<Rightarrow> s | _ \<Rightarrow> [])) (Key pe)))\<rparr>
        \<lparr>validation_path = [], validation_value = Null, validation_schema = \<lparr>Types = []\<rparr>,
          validation_typeRef = TypeRef None (Atom None None None None (Some ()))\<rparr>
        (List (TypeRef None (Atom None None None None (Some ()))) Associative [''id''])
        (ListValue
          [MapValue [(''id'', StringValue ''a''), (''extra'', IntValue 1)],
           MapValue [(''extra'', IntValue 2), (''id'', StringValue ''a'')]])
      = \<lparr>Path = [], ErrorMessage = ''duplicate entries for key id=a''\<rparr> # rest)
   \<and> (\<exists>rest.
      doList
        \<lparr>formatFloat = (\<lambda>f. ''0''), quote = (\<lambda>s. s),
          PathElement_String =
            (\<lambda>pe. case Value pe of
                    Some u \<Rightarrow> (case u of StringValue s \<Rightarrow> s | _ \<Rightarrow> [])
                  | None \<Rightarrow> concat (map (\<lambda>f. fst f @ ''='' @
                        (case snd f of StringValue s \<Rightarrow> s | _ \<Rightarrow> [])) (Key pe)))\<rparr>
        \<lparr>validation_path = [], validation_value = Null, validation_schema = \<lparr>Types = []\<rparr>,
          validation_typeRef = TypeRef None (Atom None None None None (Some ()))\<rparr>
        (List (TypeRef None (Atom None None None None (Some ()))) Associative [])
        (ListValue [StringValue ''a'', StringValue ''b'', StringValue ''a''])
      = \<lparr>Path = [], ErrorMessage = ''duplicate entries for key a''\<rparr> # rest)"
proof -
  note keyed = C2_duplicate_reported_for_later_element
    [of 0 1
        "[MapValue [(''id'', StringValue ''a''), (''extra'', IntValue 1)],
           MapValue [(''extra'', IntValue 2), (''id'', StringValue ''a'')]]"
        "List (TypeRef None (Atom None None None None (Some ()))) Associative [''id'']"
        "\<lparr>FieldName = None, Key = [(''id'', StringValue ''a'')], Value = None, Index = None\<rparr>"
        "\<lparr>FieldName = None, Key = [(''id'', StringValue ''a'')], Value = None, Index = None\<rparr>"
        "\<lparr>formatFloat = (\<lambda>f. ''0''), quote = (\<lambda>s. s),
          PathElement_String =
            (\<lambda>pe. case Value pe of
                    Some u \<Rightarrow> (case u of StringValue s \<Rightarrow> s | _ \<Rightarrow> [])
                  | None \<Rightarrow> concat (map (\<lambda>f. fst f @ ''='' @
                        (case snd f of StringValue s \<Rightarrow> s | _ \<Rightarrow> [])) (Key pe)))\<rparr>"
        "\<lparr>validation_path = [], validation_value = Null, validation_schema = \<lparr>Types = []\<rparr>,
          validation_typeRef = TypeRef None (Atom None None None None (Some ()))\<rparr>"]
  note sets = C2_duplicate_reported_for_later_element
    [of 0 2
        "[StringValue ''a'', StringValue ''b'', StringValue ''a'']"
        "List (TypeRef None (Atom None None None None (Some ()))) Associative []"
        "\<lparr>FieldName = None, Key = [], Value = Some (StringValue ''a''), Index = None\<rparr>"
        "\<lparr>FieldName = None, Key = [], Value = Some (StringValue ''a''), Index = None\<rparr>"
        "\<lparr>formatFloat = (\<lambda>f. ''0''), quote = (\<lambda>s. s),
          PathElement_String =
            (\<lambda>pe. case Value pe of
                    Some u \<Rightarrow> (case u of StringValue s \<Rightarrow> s | _ \<Rightarrow> [])
                  | None \<Rightarrow> concat (map (\<lambda>f. fst f @ ''='' @
                        (case snd f of StringValue s \<Rightarrow> s | _ \<Rightarrow> [])) (Key pe)))\<rparr>"
        "\<lparr>validation_path = [], validation_value = Null, validation_schema = \<lparr>Types = []\<rparr>,
          validation_typeRef = TypeRef None (Atom None None None None (Some ()))\<rparr>"]
  have "\<exists>rest.
      doList
        \<lparr>formatFloat = (\<lambda>f. ''0''), quote = (\<lambda>s. s),
          PathElement_String =
            (\<lambda>pe. case Value pe of
                    Some u \<Rightarrow> (case u of StringValue s \<Rightarrow> s | _ \<Rightarrow> [])
                  | None \<Rightarrow> concat (map (\<lambda>f. fst f @ ''='' @
                        (case snd f of StringValue s \<Rightarrow> s | _ \<Rightarrow> [])) (Key pe)))\<rparr>
        \<lparr>validation_path = [], validation_value = Null, validation_schema = \<lparr>Types = []\<rparr>,
          validation_typeRef = TypeRef None (Atom None None None None (Some ()))\<rparr>
        (List (TypeRef None (Atom None None None None (Some ()))) Associative [''id''])
        (ListValue
          [MapValue [(''id'', StringValue ''a''), (''extra'', IntValue 1)],
           MapValue [(''extra'', IntValue 2), (''id'', StringValue ''a'')]])
      = \<lparr>Path = [], ErrorMessage = ''duplicate entries for key id=a''\<rparr> # rest"
    using keyed
    by (simp add: listItemToPathElement_def keyedAssociativeListItemToPathElement_def
          PathElement_zero_def Get_def buildIndex_def doList.simps validate.simps Resolve_def
          error_def Let_def)
  moreover have "\<exists>rest.
      doList
        \<lparr>formatFloat = (\<lambda>f. ''0''), quote = (\<lambda>s. s),
          PathElement_String =
            (\<lambda>pe. case Value pe of
                    Some u \<Rightarrow> (case u of StringValue s \<Rightarrow> s | _ \<Rightarrow> [])
                  | None \<Rightarrow> concat (map (\<lambda>f. fst f @ ''='' @
                        (case snd f of StringValue s \<Rightarrow> s | _ \<Rightarrow> [])) (Key pe)))\<rparr>
        \<lparr>validation_path = [], validation_value = Null, validation_schema = \<lparr>Types = []\<rparr>,
          validation_typeRef = TypeRef None (Atom None None None None (Some ()))\<rparr>
        (List (TypeRef None (Atom None None None None (Some ()))) Associative [])
        (ListValue [StringValue ''a'', StringValue ''b'', StringValue ''a''])
      = \<lparr>Path = [], ErrorMessage = ''duplicate entries for key a''\<rparr> # rest"
    using sets
    by (simp add: listItemToPathElement_def setItemToPathElement_def
          PathElement_zero_def doList.simps validate.simps Resolve_def
          error_def Let_def)
  ultimately show ?thesis by blast
qed

subsection \<open>Messages of type mismatches\<close>

text \<open>
  Claim C6.  Validating the boolean \<open>true\<close> against a list gives the message
  "expected list", which does not render the value; against a map it gives
  "expected list, found true", which names a list where a map is expected.  The struct
  and scalar cases name the expected shape and render the value.
\<close>

theorem C6_mismatch_messages_of_list_and_map:
  "validate x \<lparr>validation_path = p, validation_value = BooleanValue True,
               validation_schema = s,
               validation_typeRef = TypeRef None (Atom None None (Some t) None None)\<rparr>
     = [\<lparr>Path = p, ErrorMessage = ''expected list''\<rparr>]
   \<and> validate x \<lparr>validation_path = p, validation_value = BooleanValue True,
                 validation_schema = s,
                 validation_typeRef = TypeRef None (Atom None None None (Some u) None)\<rparr>
     = [\<lparr>Path = p, ErrorMessage = ''expected list, found true''\<rparr>]
   \<and> validate x \<lparr>validation_path = p, validation_value = BooleanValue True,
                 validation_schema = s,
                 validation_typeRef = TypeRef None (Atom None (Some w) None None None)\<rparr>
     = [\<lparr>Path = p, ErrorMessage = ''expected struct, got true''\<rparr>]
   \<and> validate x \<lparr>validation_path = p, validation_value = BooleanValue True,
                 validation_schema = s,
                 validation_typeRef = TypeRef None (Atom (Some String) None None None None)\<rparr>
     = [\<lparr>Path = p, ErrorMessage = ''expected string, got true''\<rparr>]"
  by (simp add: validate.simps doList.simps doMap.simps doStruct.simps doScalar_def
        Resolve_def error_def)


subsection \<open>The loops of the removing walker\<close>

text \<open>
  In a list that is not atomic the path element of an item does not depend on its
  index.  The loop of \<open>doList\<close> then keeps the items whose path is not in the removal set,
  in their order, each one rewritten by the removal of the narrowed subset when that is
  not empty; the loop of \<open>doMap\<close> keeps the entries whose name is declared in \<open>Fields\<close> or
  whose path is not in the removal set.
\<close>

lemma listItemToPathElement_index:
  "List_ElementRelationship t \<noteq> Atomic \<Longrightarrow>
   listItemToPathElement t i item = listItemToPathElement t 0 item"
  by (cases "List_ElementRelationship t")
     (simp_all add: listItemToPathElement_def keyedAssociativeListItemToPathElement_def
        setItemToPathElement_def)

lemma doList_items_map_filter:
  assumes "List_ElementRelationship t \<noteq> Atomic"
  shows "removingWalker_doList_items w t i items =
         map (\<lambda>item.
                if Empty (WithPrefix (walker_toRemove w) (fst (listItemToPathElement t 0 item)))
                then item
                else removeItemsWithSchema item
                       (WithPrefix (walker_toRemove w) (fst (listItemToPathElement t 0 item)))
                       (walker_schema w) (List_ElementType t))
             (filter (\<lambda>item. \<not> Has (walker_toRemove w)
                                   (MakePath (fst (listItemToPathElement t 0 item)))) items)"
proof (induction items arbitrary: i)
  case Nil
  show ?case by simp
next
  case (Cons item rest)
  show ?case
    using Cons.IH [of "i + 1"] listItemToPathElement_index [OF assms, of i item]
    by (simp add: Let_def)
qed

lemma fieldTypes_aux:
  "(foldl (\<lambda>m structField. m(StructField_Name structField \<mapsto> StructField_Type structField))
      m0 fs k = None)
   = (m0 k = None \<and> k \<notin> set (map StructField_Name fs))"
  by (induction fs arbitrary: m0) auto

lemma fieldTypes_None:
  "(fieldTypes t k = None) = (k \<notin> set (map StructField_Name (Map_Fields t)))"
  using fieldTypes_aux [of Map.empty "Map_Fields t" k] by (simp add: fieldTypes_def)

lemma doMap_items_map_filter:
  "removingWalker_doMap_items w t m =
   map (\<lambda>entry.
          (fst entry,
           let pe = PathElement_zero\<lparr>FieldName := Some (fst entry)\<rparr> in
           if Empty (WithPrefix (walker_toRemove w) pe) then snd entry
           else removeItemsWithSchema (snd entry) (WithPrefix (walker_toRemove w) pe)
                  (walker_schema w)
                  (case fieldTypes t (fst entry) of
                     Some ft \<Rightarrow> ft | None \<Rightarrow> Map_ElementType t)))
       (filter (\<lambda>entry. fst entry \<in> set (map StructField_Name (Map_Fields t))
                         \<or> \<not> Has (walker_toRemove w)
                                (MakePath (PathElement_zero\<lparr>FieldName := Some (fst entry)\<rparr>)))
          m)"
proof (induction m)
  case Nil
  show ?case by simp
next
  case (Cons entry rest)
  show ?case
  proof (cases "fieldTypes t (fst entry)")
    case None
    then have "fst entry \<notin> set (map StructField_Name (Map_Fields t))"
      by (simp add: fieldTypes_None)
    then show ?thesis
      using None Cons.IH by (simp add: Let_def removingWalker_doMap_keep.simps)
  next
    case (Some ft)
    then have "fst entry \<in> set (map StructField_Name (Map_Fields t))"
      using fieldTypes_None [of t "fst entry"] by simp
    then show ?thesis
      using Some Cons.IH by (simp add: Let_def removingWalker_doMap_keep.simps)
  qed
qed

subsection \<open>Removal from lists\<close>

text \<open>
  Claim C10.  Removing from a non-empty list that is not atomic keeps exactly the items
  whose derived path is not in the removal set: every item whose path is in the set is
  left out, at whatever position and however many items derive that same path element.
  What is stored is Null when no item is kept, and otherwise the kept items in their
  order, each after the removal of its narrowed subset.
\<close>

theorem C10_every_occurrence_removed:
  assumes "List_ElementRelationship t \<noteq> Atomic" and "items \<noteq> []"
  shows "removingWalker_doList
           \<lparr>walker_value = ListValue items, walker_schema = s, walker_toRemove = R\<rparr> t =
         (let kept = filter (\<lambda>item. \<not> Has R (MakePath (fst (listItemToPathElement t 0 item))))
                       items;
              newItems =
                map (\<lambda>item.
                       if Empty (WithPrefix R (fst (listItemToPathElement t 0 item))) then item
                       else removeItemsWithSchema item
                              (WithPrefix R (fst (listItemToPathElement t 0 item)))
                              s (List_ElementType t))
                    kept
          in if kept = [] then Null else ListValue newItems)"
  using assms
  by (simp add: removingWalker_doList.simps ValueList_def Let_def
        doList_items_map_filter [OF assms(1)])


theorem C10_every_occurrence_removed_witness:
  "List_ElementRelationship (List (TypeRef None (Atom None None None None (Some ()))) Associative [''id'']) \<noteq> Atomic
   \<and> [MapValue [(''id'', StringValue ''a''), (''x'', IntValue 1)],
       MapValue [(''id'', StringValue ''b'')],
       MapValue [(''x'', IntValue 2), (''id'', StringValue ''a'')]] \<noteq> []
   \<and> removingWalker_doList
        \<lparr>walker_value =
           ListValue [MapValue [(''id'', StringValue ''a''), (''x'', IntValue 1)],
                      MapValue [(''id'', StringValue ''b'')],
                      MapValue [(''x'', IntValue 2), (''id'', StringValue ''a'')]],
         walker_schema = \<lparr>Types = []\<rparr>,
         walker_toRemove =
           [[\<lparr>FieldName = None, Key = [(''id'', StringValue ''a'')], Value = None,
               Index = None\<rparr>]]\<rparr>
        (List (TypeRef None (Atom None None None None (Some ()))) Associative [''id''])
      = ListValue [MapValue [(''id'', StringValue ''b'')]]"
  using C10_every_occurrence_removed
    [of "List (TypeRef None (Atom None None None None (Some ()))) Associative [''id'']"
        "[MapValue [(''id'', StringValue ''a''), (''x'', IntValue 1)],
          MapValue [(''id'', StringValue ''b'')],
          MapValue [(''x'', IntValue 2), (''id'', StringValue ''a'')]]"
        "\<lparr>Types = []\<rparr>"
        "[[\<lparr>FieldName = None, Key = [(''id'', StringValue ''a'')], Value = None,
            Index = None\<rparr>]]"]
  by (simp add: listItemToPathElement_def keyedAssociativeListItemToPathElement_def
        PathElement_zero_def Get_def buildIndex_def Has_def MakePath_def WithPrefix_def
        Empty_def Let_def)

subsection \<open>The empty removal set\<close>

lemma doList_items_nothing_to_remove:
  "removingWalker_doList_items \<lparr>walker_value = v, walker_schema = s, walker_toRemove = []\<rparr>
     t i items = items"
  by (induction items arbitrary: i) (simp_all add: Has_def WithPrefix_def Empty_def Let_def)

lemma doMap_items_nothing_to_remove:
  "removingWalker_doMap_items \<lparr>walker_value = v, walker_schema = s, walker_toRemove = []\<rparr>
     t m = m"
  by (induction m)
     (simp_all add: Has_def WithPrefix_def Empty_def Let_def removingWalker_doMap_keep.simps
        split: option.splits)

text \<open>
  Claim C9.  Removing the empty Path-set leaves every value as it is, for every schema
  and every type reference.
\<close>

theorem C9_empty_set_is_identity:
  "removeItemsWithSchema v [] s tr = v"
proof -
  let ?w = "\<lparr>walker_value = v, walker_schema = s, walker_toRemove = []\<rparr>"
  have l: "removingWalker_doList ?w t = v" for t
  proof (cases "ValueList v")
    case None
    then show ?thesis by (simp add: removingWalker_doList.simps)
  next
    case (Some l)
    then have "v = ListValue l" by (rule ValueList_Some)
    then show ?thesis
      using Some
      by (simp add: removingWalker_doList.simps doList_items_nothing_to_remove)
  qed
  have m: "removingWalker_doMap ?w t = v" for t
  proof (cases "ValueMap v")
    case None
    then show ?thesis by (simp add: removingWalker_doMap.simps)
  next
    case (Some m)
    then have "v = MapValue m" by (rule ValueMap_Some)
    then show ?thesis
      using Some
      by (simp add: removingWalker_doMap.simps doMap_items_nothing_to_remove)
  qed
  show ?thesis
    by (simp add: removeItemsWithSchema.simps resolveSchema_def removingWalker_doScalar_def
        Let_def l m split: option.splits)
qed

subsection \<open>Removal from maps\<close>

text \<open>
  Claim C3, as stated, fails.  The field \<open>a\<close> is declared in \<open>Fields\<close> and its exact path
  is in the removal set, yet the entry stays: the test of the removal set is in the
  \<open>else\<close> branch of the lookup in \<open>fieldTypes\<close>.
\<close>

theorem C3_declared_field_kept_counterexample:
  "Has [[\<lparr>FieldName = Some ''a'', Key = [], Value = None, Index = None\<rparr>]]
       (MakePath \<lparr>FieldName = Some ''a'', Key = [], Value = None, Index = None\<rparr>)
   \<and> removeItemsWithSchema (MapValue [(''a'', IntValue 1)])
        [[\<lparr>FieldName = Some ''a'', Key = [], Value = None, Index = None\<rparr>]]
        \<lparr>Types = []\<rparr>
        (TypeRef None (Atom None None None
           (Some (Map [StructField ''a'' (TypeRef None (Atom (Some Numeric) None None None None))]
                      (TypeRef None (Atom None None None None (Some ()))) Associative))
           None))
      = MapValue [(''a'', IntValue 1)]"
  by (simp add: removeItemsWithSchema.simps resolveSchema_def removingWalker_doScalar_def
        Let_def Resolve_def
        removingWalker_doMap.simps ValueMap_def fieldTypes_def Has_def MakePath_def
        WithPrefix_def Empty_def PathElement_zero_def Let_def removingWalker_doMap_keep.simps)

lemma fieldTypes_as_map_of:
  "fieldTypes t k =
   map_of (rev (map (\<lambda>f. (StructField_Name f, StructField_Type f)) (Map_Fields t))) k"
  using foldl_update_map_of [of StructField_Name StructField_Type Map.empty "Map_Fields t" k]
  by (simp add: fieldTypes_def split: option.splits)

text \<open>
  Claim C3, amended.  For a non-empty map that is not atomic, an entry is dropped exactly
  when its field is not declared in \<open>Fields\<close> and its exact path is in the removal set.
  Every other entry is kept in its place: as it is when the removal set has nothing
  below its path, and otherwise with its value rewritten by the removal of the narrowed
  subset, at the declared type of the field, or at \<open>ElementType\<close> for a field that is not
  declared.  Null is stored when no entry is kept.  The examples after it have a
  declared field \<open>a\<close> whose exact path is in the set: it stays, \<open>x\<close> is removed inside
  it, and the undeclared \<open>b\<close> goes; in the second the value of \<open>a\<close> is left without
  entries and becomes Null.
\<close>

theorem C3_undeclared_entries_dropped:
  assumes "Map_ElementRelationship t \<noteq> Atomic" and "m \<noteq> []"
  shows "removingWalker_doMap
           \<lparr>walker_value = MapValue m, walker_schema = s, walker_toRemove = R\<rparr> t =
         (let declared =
                map_of (rev (map (\<lambda>f. (StructField_Name f, StructField_Type f)) (Map_Fields t)));
              kept =
                filter (\<lambda>entry. declared (fst entry) \<noteq> None
                          \<or> \<not> Has R (MakePath (PathElement_zero\<lparr>FieldName := Some (fst entry)\<rparr>)))
                  m;
              newMap =
                map (\<lambda>entry.
                       (fst entry,
                        if Empty (WithPrefix R (PathElement_zero\<lparr>FieldName := Some (fst entry)\<rparr>))
                        then snd entry
                        else removeItemsWithSchema (snd entry)
                               (WithPrefix R (PathElement_zero\<lparr>FieldName := Some (fst entry)\<rparr>))
                               s
                               (case declared (fst entry) of
                                  Some ft \<Rightarrow> ft | None \<Rightarrow> Map_ElementType t)))
                    kept
          in if kept = [] then Null else MapValue newMap)"
proof -
  have d: "fieldTypes t = map_of (rev (map (\<lambda>f. (StructField_Name f, StructField_Type f))
                                      (Map_Fields t)))"
    by (rule ext) (rule fieldTypes_as_map_of)
  have declared: "(\<exists>y. fieldTypes t k = Some y) = (k \<in> StructField_Name ` set (Map_Fields t))"
    for k
    using fieldTypes_None [of t k] by auto
  show ?thesis
    unfolding d [symmetric]
    using assms
    by (simp add: removingWalker_doMap.simps ValueMap_def doMap_items_map_filter Let_def
          declared)
qed


theorem C3_undeclared_entries_dropped_witness:
  "Map_ElementRelationship
     (Map [StructField ''a''
                (TypeRef None (Atom None None None
                  (Some (Map [] (TypeRef None (Atom (Some Numeric) None None None None))
                    Associative)) None))]
          (TypeRef None (Atom (Some Numeric) None None None None))
          Associative) \<noteq> Atomic
   \<and> removingWalker_doMap
        \<lparr>walker_value = MapValue
           [(''a'', MapValue [(''x'', IntValue 1), (''y'', IntValue 2)]), (''b'', IntValue 2),
           (''c'', IntValue 3)],
          walker_schema = \<lparr>Types = []\<rparr>,
          walker_toRemove =
          [[\<lparr>FieldName = Some ''a'', Key = [], Value = None, Index = None\<rparr>],
           [\<lparr>FieldName = Some ''a'', Key = [], Value = None, Index = None\<rparr>,
            \<lparr>FieldName = Some ''x'', Key = [], Value = None, Index = None\<rparr>],
           [\<lparr>FieldName = Some ''b'', Key = [], Value = None, Index = None\<rparr>]]\<rparr>
        (Map [StructField ''a''
                (TypeRef None (Atom None None None
                  (Some (Map [] (TypeRef None (Atom (Some Numeric) None None None None))
                    Associative)) None))]
          (TypeRef None (Atom (Some Numeric) None None None None))
          Associative)
     = MapValue [(''a'', MapValue [(''y'', IntValue 2)]), (''c'', IntValue 3)]
   \<and> removingWalker_doMap
        \<lparr>walker_value = MapValue
           [(''a'', MapValue [(''x'', IntValue 1)])],
          walker_schema = \<lparr>Types = []\<rparr>,
          walker_toRemove =
          [[\<lparr>FieldName = Some ''a'', Key = [], Value = None, Index = None\<rparr>,
            \<lparr>FieldName = Some ''x'', Key = [], Value = None, Index = None\<rparr>]]\<rparr>
        (Map [StructField ''a''
                (TypeRef None (Atom None None None
                  (Some (Map [] (TypeRef None (Atom (Some Numeric) None None None None))
                    Associative)) None))]
          (TypeRef None (Atom (Some Numeric) None None None None))
          Associative)
     = MapValue [(''a'', Null)]"
  using C3_undeclared_entries_dropped
    [of "(Map [StructField ''a''
                (TypeRef None (Atom None None None
                  (Some (Map [] (TypeRef None (Atom (Some Numeric) None None None None))
                    Associative)) None))]
          (TypeRef None (Atom (Some Numeric) None None None None))
          Associative)"
        "[(''a'', MapValue [(''x'', IntValue 1), (''y'', IntValue 2)]), (''b'', IntValue 2),
           (''c'', IntValue 3)]"
        "\<lparr>Types = []\<rparr>"
        "[[\<lparr>FieldName = Some ''a'', Key = [], Value = None, Index = None\<rparr>],
           [\<lparr>FieldName = Some ''a'', Key = [], Value = None, Index = None\<rparr>,
            \<lparr>FieldName = Some ''x'', Key = [], Value = None, Index = None\<rparr>],
           [\<lparr>FieldName = Some ''b'', Key = [], Value = None, Index = None\<rparr>]]"]
    C3_undeclared_entries_dropped
    [of "(Map [StructField ''a''
                (TypeRef None (Atom None None None
                  (Some (Map [] (TypeRef None (Atom (Some Numeric) None None None None))
                    Associative)) None))]
          (TypeRef None (Atom (Some Numeric) None None None None))
          Associative)"
        "[(''a'', MapValue [(''x'', IntValue 1)])]"
        "\<lparr>Types = []\<rparr>"
        "[[\<lparr>FieldName = Some ''a'', Key = [], Value = None, Index = None\<rparr>,
            \<lparr>FieldName = Some ''x'', Key = [], Value = None, Index = None\<rparr>]]"]
  by (simp add: removeItemsWithSchema.simps resolveSchema_def removingWalker_doScalar_def Resolve_def
        removingWalker_doList.simps removingWalker_doMap.simps ValueList_def ValueMap_def
        listItemToPathElement_def keyedAssociativeListItemToPathElement_def
        PathElement_zero_def Get_def buildIndex_def fieldTypes_def Has_def MakePath_def
        WithPrefix_def Empty_def Let_def removingWalker_doMap_keep.simps)

subsection \<open>Containers left without elements\<close>

text \<open>
  Claim C4, as stated, fails.  An empty list and an empty map are returned as they are
  ("if list is null, empty, or atomic just return"): no element survives, and the value
  is the empty sequence, respectively the empty map, not Null.
\<close>

theorem C4_empty_container_left_empty_counterexample:
  "removeItemsWithSchema (ListValue [])
     [[\<lparr>FieldName = None, Key = [], Value = Some (StringValue ''a''), Index = None\<rparr>]]
     \<lparr>Types = []\<rparr>
     (TypeRef None (Atom None None (Some (List (TypeRef None (Atom None None None None (Some ()))) Associative [])) None None))
   = ListValue []
   \<and> removeItemsWithSchema (MapValue [])
     [[\<lparr>FieldName = Some ''a'', Key = [], Value = None, Index = None\<rparr>]]
     \<lparr>Types = []\<rparr>
     (TypeRef None (Atom None None None (Some (Map [] (TypeRef None (Atom None None None None (Some ()))) Associative)) None))
   = MapValue []"
  by (simp add: removeItemsWithSchema.simps resolveSchema_def removingWalker_doScalar_def
        Let_def Resolve_def
        removingWalker_doList.simps removingWalker_doMap.simps ValueList_def ValueMap_def)

text \<open>
  Claim C4, amended.  For a list that is not atomic and has at least one item, the
  removal stores Null exactly when the path of every item is in the removal set, and
  stores a non-empty list otherwise, never an empty one.  For a map that is not atomic
  and has at least one entry, it stores Null exactly when every entry is of an undeclared
  field with its path in the removal set, and a non-empty map otherwise.  In particular
  the removal of the sole field of a map leaves Null.
\<close>

theorem C4_nonempty_container_collapses_to_Null:
  assumes "List_ElementRelationship t \<noteq> Atomic" and "items \<noteq> []"
      and "Map_ElementRelationship u \<noteq> Atomic" and "m \<noteq> []"
  shows "(removingWalker_doList
            \<lparr>walker_value = ListValue items, walker_schema = s, walker_toRemove = R\<rparr> t = Null
          \<longleftrightarrow> (\<forall>item\<in>set items.
                 Has R (MakePath (fst (listItemToPathElement t 0 item)))))
       \<and> (removingWalker_doList
            \<lparr>walker_value = ListValue items, walker_schema = s, walker_toRemove = R\<rparr> t \<noteq> Null
          \<longrightarrow> (\<exists>l. l \<noteq> [] \<and>
                 removingWalker_doList
                   \<lparr>walker_value = ListValue items, walker_schema = s, walker_toRemove = R\<rparr> t
                 = ListValue l))
       \<and> (removingWalker_doMap
            \<lparr>walker_value = MapValue m, walker_schema = s, walker_toRemove = R\<rparr> u = Null
          \<longleftrightarrow> (\<forall>entry\<in>set m.
                 fst entry \<notin> set (map StructField_Name (Map_Fields u))
                 \<and> Has R (MakePath (PathElement_zero\<lparr>FieldName := Some (fst entry)\<rparr>))))
       \<and> (removingWalker_doMap
            \<lparr>walker_value = MapValue m, walker_schema = s, walker_toRemove = R\<rparr> u \<noteq> Null
          \<longrightarrow> (\<exists>m'. m' \<noteq> [] \<and>
                 removingWalker_doMap
                   \<lparr>walker_value = MapValue m, walker_schema = s, walker_toRemove = R\<rparr> u
                 = MapValue m'))"
proof -
  let ?wl = "\<lparr>walker_value = ListValue items, walker_schema = s, walker_toRemove = R\<rparr>"
  let ?wm = "\<lparr>walker_value = MapValue m, walker_schema = s, walker_toRemove = R\<rparr>"
  let ?keepl = "\<lambda>item. \<not> Has R (MakePath (fst (listItemToPathElement t 0 item)))"
  let ?keepm = "\<lambda>entry. fst entry \<in> set (map StructField_Name (Map_Fields u))
                  \<or> \<not> Has R (MakePath (PathElement_zero\<lparr>FieldName := Some (fst entry)\<rparr>))"
  have l: "removingWalker_doList ?wl t =
           (if filter ?keepl items = [] then Null
            else ListValue (removingWalker_doList_items ?wl t 0 items))"
    using assms(1,2)
    by (simp add: removingWalker_doList.simps ValueList_def Let_def
          doList_items_map_filter [OF assms(1)])
  have ln: "filter ?keepl items \<noteq> [] \<Longrightarrow> removingWalker_doList_items ?wl t 0 items \<noteq> []"
    by (simp add: doList_items_map_filter [OF assms(1)])
  have m: "removingWalker_doMap ?wm u =
           (if filter ?keepm m = [] then Null
            else MapValue (removingWalker_doMap_items ?wm u m))"
    using assms(3,4)
    by (simp add: removingWalker_doMap.simps ValueMap_def Let_def doMap_items_map_filter)
  have mn: "filter ?keepm m \<noteq> [] \<Longrightarrow> removingWalker_doMap_items ?wm u m \<noteq> []"
    by (simp add: doMap_items_map_filter)
  have fl: "(filter ?keepl items = []) = (\<forall>item\<in>set items. \<not> ?keepl item)"
    by (simp add: filter_empty_conv)
  have fm: "(filter ?keepm m = []) = (\<forall>entry\<in>set m. \<not> ?keepm entry)"
    by (simp add: filter_empty_conv)
  have 1: "removingWalker_doList ?wl t = Null
           \<longleftrightarrow> (\<forall>item\<in>set items. Has R (MakePath (fst (listItemToPathElement t 0 item))))"
    unfolding l using fl by simp
  have 2: "removingWalker_doList ?wl t \<noteq> Null
           \<longrightarrow> (\<exists>l. l \<noteq> [] \<and> removingWalker_doList ?wl t = ListValue l)"
    unfolding l using ln by simp
  have 3: "removingWalker_doMap ?wm u = Null
           \<longleftrightarrow> (\<forall>entry\<in>set m.
                 fst entry \<notin> set (map StructField_Name (Map_Fields u))
                 \<and> Has R (MakePath (PathElement_zero\<lparr>FieldName := Some (fst entry)\<rparr>)))"
    unfolding m using fm by simp
  have 4: "removingWalker_doMap ?wm u \<noteq> Null
           \<longrightarrow> (\<exists>m'. m' \<noteq> [] \<and> removingWalker_doMap ?wm u = MapValue m')"
    unfolding m using mn by simp
  from 1 2 3 4 show ?thesis by blast
qed

theorem C4_nonempty_container_collapses_to_Null_witness:
  "removingWalker_doList
     \<lparr>walker_value = ListValue [StringValue ''a'', StringValue ''a''],
       walker_schema = \<lparr>Types = []\<rparr>,
       walker_toRemove =
         [[\<lparr>FieldName = None, Key = [], Value = Some (StringValue ''a''), Index = None\<rparr>]]\<rparr>
     (List (TypeRef None (Atom None None None None (Some ()))) Associative []) = Null
   \<and> removingWalker_doMap
     \<lparr>walker_value = MapValue [(''a'', IntValue 1)],
       walker_schema = \<lparr>Types = []\<rparr>,
       walker_toRemove =
         [[\<lparr>FieldName = Some ''a'', Key = [], Value = None, Index = None\<rparr>]]\<rparr>
     (Map [] (TypeRef None (Atom None None None None (Some ()))) Associative) = Null"
  using C4_nonempty_container_collapses_to_Null
    [of "List (TypeRef None (Atom None None None None (Some ()))) Associative []" "[StringValue ''a'', StringValue ''a'']"
        "Map [] (TypeRef None (Atom None None None None (Some ()))) Associative" "[(''a'', IntValue 1)]" "\<lparr>Types = []\<rparr>"
        "[[\<lparr>FieldName = None, Key = [], Value = Some (StringValue ''a''), Index = None\<rparr>]]"]
      C4_nonempty_container_collapses_to_Null
    [of "List (TypeRef None (Atom None None None None (Some ()))) Associative []" "[StringValue ''a'', StringValue ''a'']"
        "Map [] (TypeRef None (Atom None None None None (Some ()))) Associative" "[(''a'', IntValue 1)]" "\<lparr>Types = []\<rparr>"
        "[[\<lparr>FieldName = Some ''a'', Key = [], Value = None, Index = None\<rparr>]]"]
  by (simp add: listItemToPathElement_def setItemToPathElement_def PathElement_zero_def
        Has_def MakePath_def)


subsection \<open>Lookup depends on the entries of the name\<close>




subsection \<open>Key loop\<close>


subsection \<open>What one removal call does\<close>









subsection \<open>Well-keyed removal sets\<close>








subsection \<open>What a removal leaves of the key fields\<close>









subsection \<open>One level of a second removal\<close>



subsection \<open>Removing the same set twice\<close>




end
